theory Spec2Isabelle
  imports Complex_Main
begin

section \<open>CameraSet: a set of cameras projecting one landmark (gtsam/geometry/CameraSet.h)\<close>

subsection \<open>Dynamic matrices\<close>

text \<open>
  \<^verbatim>\<open>Matrix\<close> is Eigen's dynamically sized matrix of doubles. The class only resizes
  matrices and copies blocks into them, so the coefficient type is left open (\<open>'a\<close>).
  A coefficient that has been allocated but not yet written holds no determined value:
  it is \<open>None\<close>.
\<close>

record 'a Matrix =
  rows :: nat
  cols :: nat
  coeff :: "nat \<Rightarrow> nat \<Rightarrow> 'a option"

text \<open>A fixed-size matrix \<^verbatim>\<open>Eigen::Matrix<double, R, C>\<close>, as filled in by a camera.\<close>

type_synonym 'a block = "nat \<Rightarrow> nat \<Rightarrow> 'a"

text \<open>
  \<^verbatim>\<open>M.resize(r, c)\<close>: new shape, coefficients not initialised. (Eigen keeps the old
  values when the number of coefficients does not change; no property below reads a
  coefficient of a resized matrix before it is written.)
\<close>

definition resize :: "nat \<Rightarrow> nat \<Rightarrow> 'a Matrix \<Rightarrow> 'a Matrix" where
  "resize r c M = \<lparr>rows = r, cols = c, coeff = (\<lambda>_ _. None)\<rparr>"

text \<open>
  \<^verbatim>\<open>M.block<blockRows, blockCols>(startRow, startCol) = B\<close>: the coefficients of the
  block are overwritten with those of \<open>B\<close>, every other coefficient is kept. A block of
  no columns writes nothing. \<open>block_assign\<close> is the assignment itself. Taking the block
  first checks, by an assertion of Eigen, that it lies inside the matrix
  (\<open>block_in_range\<close>); a build with \<^verbatim>\<open>NDEBUG\<close> compiles the assertion out.
\<close>

definition block_assign ::
  "nat \<Rightarrow> nat \<Rightarrow> nat \<Rightarrow> nat \<Rightarrow> 'a block \<Rightarrow> 'a Matrix \<Rightarrow> 'a Matrix" where
  "block_assign startRow startCol blockRows blockCols B M =
     M\<lparr>coeff := (\<lambda>r c.
           if startRow \<le> r \<and> r < startRow + blockRows \<and>
              startCol \<le> c \<and> c < startCol + blockCols
           then Some (B (r - startRow) (c - startCol))
           else coeff M r c)\<rparr>"

definition block_in_range :: "nat \<Rightarrow> nat \<Rightarrow> nat \<Rightarrow> nat \<Rightarrow> 'a Matrix \<Rightarrow> bool" where
  "block_in_range startRow startCol blockRows blockCols M =
     (startRow + blockRows \<le> rows M \<and> startCol + blockCols \<le> cols M)"

text \<open>The assertion for a block of a matrix behind an optional reference.\<close>

definition block_ok :: "nat \<Rightarrow> nat \<Rightarrow> nat \<Rightarrow> nat \<Rightarrow> 'a Matrix option \<Rightarrow> bool" where
  "block_ok startRow startCol blockRows blockCols A =
     (case A of None \<Rightarrow> True | Some M \<Rightarrow> block_in_range startRow startCol blockRows blockCols M)"

subsection \<open>The camera capability\<close>

text \<open>
  \<^verbatim>\<open>CAMERA\<close> is a template parameter: its operations and the two dimensions read from
  \<^verbatim>\<open>traits\<close> are parameters of the model.
  \<^item> \<open>ZDim\<close>, \<open>Dim\<close>: \<^verbatim>\<open>traits<Z>::dimension\<close> and \<^verbatim>\<open>traits<CAMERA>::dimension\<close>;
  \<^item> \<open>Z_init\<close>: a value-initialised measurement \<^verbatim>\<open>Z()\<close>;
  \<^item> \<open>camera_equals a b tol\<close>: \<^verbatim>\<open>a.equals(b, tol)\<close>;
  \<^item> \<open>camera_project c point wantF wantE wantH\<close>: \<^verbatim>\<open>c.project(point, Fp, Ep, Hp)\<close>, where a
    flag says that the pointer is not null. It throws (\<open>Inl\<close>, for the camera classes
    a \<^verbatim>\<open>CheiralityException\<close>) or returns the measurement together with the contents
    of the three blocks after the call; a block whose pointer was null is not read.
\<close>

record ('cam, 'pt, 'z, 'a, 'e) CAMERA =
  ZDim :: nat
  Dim :: nat
  Z_init :: 'z
  camera_equals :: "'cam \<Rightarrow> 'cam \<Rightarrow> real \<Rightarrow> bool"
  camera_project ::
    "'cam \<Rightarrow> 'pt \<Rightarrow> bool \<Rightarrow> bool \<Rightarrow> bool \<Rightarrow> 'e + ('z \<times> 'a block \<times> 'a block \<times> 'a block)"

subsection \<open>The class\<close>

text \<open>
  The only member is the vector \<^verbatim>\<open>cameras_\<close>, in insertion order (the field is
  written \<open>cameras\<close>: a name cannot end in an underscore here).
\<close>

record 'cam CameraSet =
  cameras :: "'cam list"

text \<open>The default constructor and \<^verbatim>\<open>add\<close> (\<^verbatim>\<open>push_back\<close>).\<close>

definition CameraSet :: "'cam CameraSet" where
  "CameraSet = \<lparr>cameras = []\<rparr>"

definition add :: "'cam \<Rightarrow> 'cam CameraSet \<Rightarrow> 'cam CameraSet" where
  "add camera this = this\<lparr>cameras := cameras this @ [camera]\<rparr>"

text \<open>\<^verbatim>\<open>std::vector::at\<close> checks the index and throws \<^verbatim>\<open>std::out_of_range\<close>.\<close>

datatype std_exception = out_of_range

definition vector_at :: "'a list \<Rightarrow> nat \<Rightarrow> std_exception + 'a" where
  "vector_at xs i = (if i < length xs then Inr (xs ! i) else Inl out_of_range)"

text \<open>
  The loop of \<^verbatim>\<open>equals\<close>, entered at index \<open>i\<close> with the current value of the flag.
  The \<^verbatim>\<open>break\<close> is the second statement of the loop body and not part of the
  \<^verbatim>\<open>if\<close>: the body is run for at most one index and the loop is left, so no iteration
  follows it.
\<close>

definition equals_loop ::
  "('cam, 'pt, 'z, 'a, 'e) CAMERA \<Rightarrow> 'cam CameraSet \<Rightarrow> 'cam CameraSet \<Rightarrow> real \<Rightarrow>
     nat \<Rightarrow> bool \<Rightarrow> std_exception + bool" where
  "equals_loop K this p tol i camerasAreEqual =
     (if i < length (cameras this) then
        (case vector_at (cameras this) i of
           Inl e \<Rightarrow> Inl e
         | Inr a \<Rightarrow>
            (case vector_at (cameras p) i of
               Inl e \<Rightarrow> Inl e
             | Inr b \<Rightarrow>
                Inr (if camera_equals K a b tol = False then False else camerasAreEqual)))
      else Inr camerasAreEqual)"

definition equals ::
  "('cam, 'pt, 'z, 'a, 'e) CAMERA \<Rightarrow> 'cam CameraSet \<Rightarrow> 'cam CameraSet \<Rightarrow> real \<Rightarrow>
     std_exception + bool" where
  "equals K this p tol = equals_loop K this p tol 0 True"

text \<open>
  What a call of \<^verbatim>\<open>project\<close> can touch: the object itself and the matrices behind the
  three optional references (\<open>None\<close> for \<^verbatim>\<open>boost::none\<close>), taken to be three distinct
  matrices.
\<close>

record ('cam, 'a) frame =
  this :: "'cam CameraSet"
  F :: "'a Matrix option"
  E :: "'a Matrix option"
  H :: "'a Matrix option"

text \<open>
  The loop of \<^verbatim>\<open>project\<close> from index \<open>i\<close> on, with the local vector \<open>z\<close>. An exception
  of a camera leaves the function at once; the matrices stay as they are at that moment.
  This is the build with \<^verbatim>\<open>NDEBUG\<close>, where no assertion of Eigen is checked; the build
  with assertions follows below (\<open>project_loop_checked\<close>).
\<close>

function project_loop ::
  "('cam, 'pt, 'z, 'a, 'e) CAMERA \<Rightarrow> 'pt \<Rightarrow> nat \<Rightarrow> 'z list \<Rightarrow> ('cam, 'a) frame \<Rightarrow>
     ('e + 'z list) \<times> ('cam, 'a) frame" where
  "project_loop K point i z s =
     (if i < length (cameras (this s)) then
        (case camera_project K (cameras (this s) ! i) point
                (F s \<noteq> None) (E s \<noteq> None) (H s \<noteq> None) of
           Inl e \<Rightarrow> (Inl e, s)
         | Inr (zi, Fi, Ei, Hi) \<Rightarrow>
             project_loop K point (Suc i) (z[i := zi])
               (s\<lparr>F := map_option (block_assign (ZDim K * i) 0 (ZDim K) 6 Fi) (F s),
                  E := map_option (block_assign (ZDim K * i) 0 (ZDim K) 3 Ei) (E s),
                  H := map_option (block_assign (ZDim K * i) 0 (ZDim K) (Dim K - 6) Hi) (H s)\<rparr>))
      else (Inr z, s))"
  by pat_completeness auto
termination
  by (relation "measure (\<lambda>(K, point, i, z, s). length (cameras (this s)) - i)") auto

definition project ::
  "('cam, 'pt, 'z, 'a, 'e) CAMERA \<Rightarrow> 'pt \<Rightarrow> ('cam, 'a) frame \<Rightarrow>
     ('e + 'z list) \<times> ('cam, 'a) frame" where
  "project K point s =
     (let nrCameras = length (cameras (this s));
          s = s\<lparr>F := map_option (resize (ZDim K * nrCameras) 6) (F s)\<rparr>;
          s = s\<lparr>E := map_option (resize (ZDim K * nrCameras) 3) (E s)\<rparr>;
          s = (if H s \<noteq> None \<and> 6 < Dim K
               then s\<lparr>H := map_option (resize (ZDim K * nrCameras) (Dim K - 6)) (H s)\<rparr>
               else s);
          z = replicate nrCameras (Z_init K)
      in project_loop K point 0 z s)"

text \<open>
  The build with Eigen's assertions. The three block assignments of the loop body are
  run one after the other, each taking its block first; a failed assertion aborts the
  program. \<^verbatim>\<open>F\<close> and \<^verbatim>\<open>E\<close> are always resized before the loop, but \<^verbatim>\<open>H\<close> only when
  \<open>Dim > 6\<close>, while its block is taken whenever \<^verbatim>\<open>H\<close> is given: with \<open>Dim = 6\<close> the
  block of no columns is taken from the matrix as the caller passed it.
\<close>

datatype ('e, 'z) outcome = Returned "'z list" | Thrown 'e | Aborted

definition outcome_of :: "'e + 'z list \<Rightarrow> ('e, 'z) outcome" where
  "outcome_of r = (case r of Inl e \<Rightarrow> Thrown e | Inr z \<Rightarrow> Returned z)"

function project_loop_checked ::
  "('cam, 'pt, 'z, 'a, 'e) CAMERA \<Rightarrow> 'pt \<Rightarrow> nat \<Rightarrow> 'z list \<Rightarrow> ('cam, 'a) frame \<Rightarrow>
     ('e, 'z) outcome \<times> ('cam, 'a) frame" where
  "project_loop_checked K point i z s =
     (if i < length (cameras (this s)) then
        (case camera_project K (cameras (this s) ! i) point
                (F s \<noteq> None) (E s \<noteq> None) (H s \<noteq> None) of
           Inl e \<Rightarrow> (Thrown e, s)
         | Inr (zi, Fi, Ei, Hi) \<Rightarrow>
             if \<not> block_ok (ZDim K * i) 0 (ZDim K) 6 (F s) then (Aborted, s)
             else if \<not> block_ok (ZDim K * i) 0 (ZDim K) 3 (E s) then
               (Aborted, s\<lparr>F := map_option (block_assign (ZDim K * i) 0 (ZDim K) 6 Fi) (F s)\<rparr>)
             else if \<not> block_ok (ZDim K * i) 0 (ZDim K) (Dim K - 6) (H s) then
               (Aborted,
                s\<lparr>F := map_option (block_assign (ZDim K * i) 0 (ZDim K) 6 Fi) (F s),
                  E := map_option (block_assign (ZDim K * i) 0 (ZDim K) 3 Ei) (E s)\<rparr>)
             else
               project_loop_checked K point (Suc i) (z[i := zi])
                 (s\<lparr>F := map_option (block_assign (ZDim K * i) 0 (ZDim K) 6 Fi) (F s),
                    E := map_option (block_assign (ZDim K * i) 0 (ZDim K) 3 Ei) (E s),
                    H := map_option (block_assign (ZDim K * i) 0 (ZDim K) (Dim K - 6) Hi) (H s)\<rparr>))
      else (Returned z, s))"
  by pat_completeness auto
termination
  by (relation "measure (\<lambda>(K, point, i, z, s). length (cameras (this s)) - i)") auto

definition project_checked ::
  "('cam, 'pt, 'z, 'a, 'e) CAMERA \<Rightarrow> 'pt \<Rightarrow> ('cam, 'a) frame \<Rightarrow>
     ('e, 'z) outcome \<times> ('cam, 'a) frame" where
  "project_checked K point s =
     (let nrCameras = length (cameras (this s));
          s = s\<lparr>F := map_option (resize (ZDim K * nrCameras) 6) (F s)\<rparr>;
          s = s\<lparr>E := map_option (resize (ZDim K * nrCameras) 3) (E s)\<rparr>;
          s = (if H s \<noteq> None \<and> 6 < Dim K
               then s\<lparr>H := map_option (resize (ZDim K * nrCameras) (Dim K - 6)) (H s)\<rparr>
               else s);
          z = replicate nrCameras (Z_init K)
      in project_loop_checked K point 0 z s)"


subsection \<open>Notions used to state the properties\<close>

text \<open>
  The call the loop of \<^verbatim>\<open>project\<close> makes for index \<open>i\<close>: camera \<open>i\<close>'s own projection
  of the point, asked for the derivatives the caller asked for.
\<close>

definition camera_result ::
  "('cam, 'pt, 'z, 'a, 'e) CAMERA \<Rightarrow> 'pt \<Rightarrow> ('cam, 'a) frame \<Rightarrow> nat \<Rightarrow>
     'e + ('z \<times> 'a block \<times> 'a block \<times> 'a block)" where
  "camera_result K point s i =
     camera_project K (cameras (this s) ! i) point (F s \<noteq> None) (E s \<noteq> None) (H s \<noteq> None)"

text \<open>No camera of the set throws on this point, for the derivatives asked for.\<close>

definition no_camera_fails ::
  "('cam, 'pt, 'z, 'a, 'e) CAMERA \<Rightarrow> 'pt \<Rightarrow> ('cam, 'a) frame \<Rightarrow> bool" where
  "no_camera_fails K point s =
     list_all (\<lambda>c. \<not> isl (camera_project K c point (F s \<noteq> None) (E s \<noteq> None) (H s \<noteq> None)))
       (cameras (this s))"

text \<open>The first camera, in insertion order, that throws on this point.\<close>

definition first_failure ::
  "('cam, 'pt, 'z, 'a, 'e) CAMERA \<Rightarrow> 'pt \<Rightarrow> ('cam, 'a) frame \<Rightarrow> 'cam option" where
  "first_failure K point s =
     find (\<lambda>c. isl (camera_project K c point (F s \<noteq> None) (E s \<noteq> None) (H s \<noteq> None)))
       (cameras (this s))"

text \<open>The state change of one run of the loop body, and the frame after the resizes.\<close>

definition body_update ::
  "('cam, 'pt, 'z, 'a, 'e) CAMERA \<Rightarrow> nat \<Rightarrow> 'a block \<Rightarrow> 'a block \<Rightarrow> 'a block \<Rightarrow>
     ('cam, 'a) frame \<Rightarrow> ('cam, 'a) frame" where
  "body_update K i Fi Ei Hi s =
     s\<lparr>F := map_option (block_assign (ZDim K * i) 0 (ZDim K) 6 Fi) (F s),
       E := map_option (block_assign (ZDim K * i) 0 (ZDim K) 3 Ei) (E s),
       H := map_option (block_assign (ZDim K * i) 0 (ZDim K) (Dim K - 6) Hi) (H s)\<rparr>"

definition resized ::
  "('cam, 'pt, 'z, 'a, 'e) CAMERA \<Rightarrow> ('cam, 'a) frame \<Rightarrow> ('cam, 'a) frame" where
  "resized K s =
     s\<lparr>F := map_option (resize (ZDim K * length (cameras (this s))) 6) (F s),
       E := map_option (resize (ZDim K * length (cameras (this s))) 3) (E s),
       H := (if 6 < Dim K
             then map_option (resize (ZDim K * length (cameras (this s))) (Dim K - 6)) (H s)
             else H s)\<rparr>"

text \<open>Blocks \<open>blk i\<close>, ..., \<open>blk (n - 1)\<close> written one below the other into a matrix.\<close>

definition stacked ::
  "nat \<Rightarrow> nat \<Rightarrow> (nat \<Rightarrow> 'a block) \<Rightarrow> nat \<Rightarrow> nat \<Rightarrow> 'a Matrix \<Rightarrow> 'a Matrix" where
  "stacked zd w blk i n M = fold (\<lambda>j. block_assign (zd * j) 0 zd w (blk j)) [i ..< n] M"

definition Fblock ::
  "('cam, 'pt, 'z, 'a, 'e) CAMERA \<Rightarrow> 'pt \<Rightarrow> ('cam, 'a) frame \<Rightarrow> nat \<Rightarrow> 'a block" where
  "Fblock K point s j = fst (snd (projr (camera_result K point s j)))"

definition Eblock ::
  "('cam, 'pt, 'z, 'a, 'e) CAMERA \<Rightarrow> 'pt \<Rightarrow> ('cam, 'a) frame \<Rightarrow> nat \<Rightarrow> 'a block" where
  "Eblock K point s j = fst (snd (snd (projr (camera_result K point s j))))"

definition Hblock ::
  "('cam, 'pt, 'z, 'a, 'e) CAMERA \<Rightarrow> 'pt \<Rightarrow> ('cam, 'a) frame \<Rightarrow> nat \<Rightarrow> 'a block" where
  "Hblock K point s j = snd (snd (snd (projr (camera_result K point s j))))"

definition same_shape :: "'a Matrix option \<Rightarrow> 'a Matrix option \<Rightarrow> bool" where
  "same_shape A B =
     (case A of
        None \<Rightarrow> B = None
      | Some M \<Rightarrow> (case B of None \<Rightarrow> False | Some M' \<Rightarrow> rows M' = rows M \<and> cols M' = cols M))"

text \<open>The caller's frame after the call, in the build with or without assertions.\<close>

definition frame_after ::
  "bool \<Rightarrow> ('cam, 'pt, 'z, 'a, 'e) CAMERA \<Rightarrow> 'pt \<Rightarrow> ('cam, 'a) frame \<Rightarrow> ('cam, 'a) frame" where
  "frame_after asserts K point s =
     (if asserts then snd (project_checked K point s) else snd (project K point s))"

text \<open>Every row-block the loop takes lies inside the matrices of the frame.\<close>

definition blocks_fit :: "('cam, 'pt, 'z, 'a, 'e) CAMERA \<Rightarrow> ('cam, 'a) frame \<Rightarrow> bool" where
  "blocks_fit K s =
     (block_ok 0 0 (ZDim K * length (cameras (this s))) 6 (F s) \<and>
      block_ok 0 0 (ZDim K * length (cameras (this s))) 3 (E s) \<and>
      block_ok 0 0 (ZDim K * length (cameras (this s))) (Dim K - 6) (H s))"

subsection \<open>A concrete camera\<close>

text \<open>
  A camera on a line, looking in the positive direction from its position: it sees the
  points strictly in front of it, measures their distance, and throws for the others.
  Measurements have dimension 2, cameras dimension 7 (one calibration parameter).
\<close>

datatype camera_exception = CheiralityException int

definition line_camera :: "(int, int, int, int, camera_exception) CAMERA" where
  "line_camera =
     \<lparr>ZDim = 2, Dim = 7, Z_init = 0,
      camera_equals = (\<lambda>a b tol. \<bar>real_of_int a - real_of_int b\<bar> \<le> tol),
      camera_project = (\<lambda>c p wantF wantE wantH.
         if p \<le> c then Inl (CheiralityException c)
         else Inr (p - c,
                   (\<lambda>r k. 100 * c + 10 * int r + int k),
                   (\<lambda>r k. 100 * p + 10 * int r + int k),
                   (\<lambda>r k. p - c + int r)))\<rparr>"

text \<open>The same camera with no calibration parameter: its dimension is 6.\<close>

definition pose_camera :: "(int, int, int, int, camera_exception) CAMERA" where
  "pose_camera = line_camera\<lparr>Dim := 6\<rparr>"

text \<open>
  A camera whose measurement depends on the derivatives it is asked for, and a camera
  whose equality is strict in the tolerance.
\<close>

definition flag_camera :: "(int, int, int, int, camera_exception) CAMERA" where
  "flag_camera =
     line_camera\<lparr>camera_project := (\<lambda>c p wantF wantE wantH.
        Inr (if wantF \<and> wantE \<and> wantH then 7 else 0, (\<lambda>r k. 0), (\<lambda>r k. 0), (\<lambda>r k. 0)))\<rparr>"


definition empty_matrix :: "int Matrix" where
  "empty_matrix = \<lparr>rows = 0, cols = 0, coeff = (\<lambda>_ _. None)\<rparr>"

text \<open>Calls of \<^verbatim>\<open>project\<close> on a set with no derivative, and with all three.\<close>

definition request_none :: "'cam CameraSet \<Rightarrow> ('cam, 'a) frame" where
  "request_none S = \<lparr>this = S, F = None, E = None, H = None\<rparr>"

definition request_all ::
  "'cam CameraSet \<Rightarrow> 'a Matrix \<Rightarrow> 'a Matrix \<Rightarrow> 'a Matrix \<Rightarrow> ('cam, 'a) frame" where
  "request_all S MF ME MH = \<lparr>this = S, F = Some MF, E = Some ME, H = Some MH\<rparr>"

definition two_cameras :: "int CameraSet" where
  "two_cameras = add 2 (add 1 CameraSet)"

definition three_cameras :: "int CameraSet" where
  "three_cameras = add 8 (add 9 (add 1 CameraSet))"

definition all_of_two :: "(int, int) frame" where
  "all_of_two = request_all two_cameras empty_matrix empty_matrix empty_matrix"

subsection \<open>The concrete camera and sets\<close>

lemma line_camera_simps [simp]:
  "ZDim line_camera = 2" "Dim line_camera = 7" "Z_init line_camera = 0"
  "camera_equals line_camera a b tol = (\<bar>real_of_int a - real_of_int b\<bar> \<le> tol)"
  "camera_project line_camera c p wantF wantE wantH =
     (if p \<le> c then Inl (CheiralityException c)
         else Inr (p - c,
                   (\<lambda>r k. 100 * c + 10 * int r + int k),
                   (\<lambda>r k. 100 * p + 10 * int r + int k),
                   (\<lambda>r k. p - c + int r)))"
  by (simp_all add: line_camera_def)

lemma pose_camera_simps [simp]:
  "ZDim pose_camera = 2" "Dim pose_camera = 6"
  by (simp_all add: pose_camera_def)

lemma two_cameras_simps [simp]: "cameras two_cameras = [1, 2]"
  by (simp add: two_cameras_def add_def CameraSet_def)

lemma three_cameras_simps [simp]: "cameras three_cameras = [1, 9, 8]"
  by (simp add: three_cameras_def add_def CameraSet_def)

lemma request_simps [simp]:
  "this (request_none S) = S" "F (request_none S) = None" "E (request_none S) = None"
  "H (request_none S) = None"
  "this (request_all S MF ME MH) = S" "F (request_all S MF ME MH) = Some MF"
  "E (request_all S MF ME MH) = Some ME" "H (request_all S MF ME MH) = Some MH"
  by (simp_all add: request_none_def request_all_def)

lemma all_of_two_simps [simp]:
  "this all_of_two = two_cameras" "F all_of_two = Some empty_matrix"
  "E all_of_two = Some empty_matrix" "H all_of_two = Some empty_matrix"
  by (simp_all add: all_of_two_def request_all_def)

section \<open>Properties of equals\<close>

lemma equals_Nil: "cameras S = [] \<Longrightarrow> equals K S p tol = Inr True"
  by (simp add: equals_def equals_loop_def)

lemma equals_Cons_Nil:
  "cameras S = a # as \<Longrightarrow> cameras p = [] \<Longrightarrow> equals K S p tol = Inl out_of_range"
  by (simp add: equals_def equals_loop_def vector_at_def)

lemma equals_Cons_Cons:
  "cameras S = a # as \<Longrightarrow> cameras p = b # bs \<Longrightarrow>
     equals K S p tol = Inr (camera_equals K a b tol)"
  by (simp add: equals_def equals_loop_def vector_at_def)

text \<open>
  C10. An empty set is equal to every other set, empty or not, at every tolerance: the
  loop is bounded by the size of the receiver, so nothing is compared.
\<close>

theorem equals_empty_receiver: "equals K CameraSet p tol = Inr True"
  by (simp add: equals_Nil CameraSet_def)




text \<open>
  C9. On two sets of different cardinality equals checks no cardinality and reports no
  mismatch of shapes. It returns true when the receiver is empty, it fails with the
  out-of-range access of \<^verbatim>\<open>at\<close> when only the other set is empty, and otherwise it
  returns what the comparison of the two first cameras gives.
\<close>

theorem equals_different_cardinality:
  assumes "length (cameras S) \<noteq> length (cameras p)"
  shows "equals K S p tol =
           (if cameras S = [] then Inr True
            else if cameras p = [] then Inl out_of_range
            else Inr (camera_equals K (hd (cameras S)) (hd (cameras p)) tol))"
proof (cases "cameras S")
  case Nil
  then show ?thesis by (simp add: equals_Nil)
next
  case S: (Cons a as)
  show ?thesis
  proof (cases "cameras p")
    case Nil
    with S show ?thesis by (simp add: equals_Cons_Nil)
  next
    case (Cons b bs)
    with S show ?thesis by (simp add: equals_Cons_Cons)
  qed
qed

theorem equals_different_cardinality_witness:
  "length (cameras two_cameras) \<noteq> length (cameras (CameraSet :: int CameraSet)) \<and>
   length (cameras two_cameras) \<noteq> length (cameras three_cameras) \<and>
   equals line_camera two_cameras CameraSet 0 = Inl out_of_range \<and>
   equals line_camera two_cameras three_cameras 0 = Inr True"
  using equals_different_cardinality[of two_cameras "CameraSet :: int CameraSet" line_camera 0]
        equals_different_cardinality[of two_cameras three_cameras line_camera 0]
  by (simp add: CameraSet_def)

text \<open>
  C1. equals is meant to return true only if the cameras are equal at every index,
  leaving the loop early only on a mismatch. The loop is left after index 0 whatever the
  comparison gave: two sets of two cameras with equal first and different second cameras
  are reported equal.
\<close>

theorem equals_misses_second_camera:
  "equals line_camera (add 2 (add 1 CameraSet)) (add 3 (add 1 CameraSet)) 0 = Inr True \<and>
   camera_equals line_camera 2 3 0 = False"
  by (simp add: equals_def equals_loop_def vector_at_def add_def CameraSet_def)

section \<open>Properties of project\<close>

declare project_loop.simps [simp del]

lemma project_loop_unfold:
  "project_loop K point i z s =
     (if i < length (cameras (this s)) then
        (case camera_result K point s i of
           Inl e \<Rightarrow> (Inl e, s)
         | Inr (zi, Fi, Ei, Hi) \<Rightarrow>
             project_loop K point (Suc i) (z[i := zi]) (body_update K i Fi Ei Hi s))
      else (Inr z, s))"
  by (subst project_loop.simps)
     (simp add: camera_result_def body_update_def split: sum.splits)

lemma project_unfold:
  "project K point s =
     project_loop K point 0 (replicate (length (cameras (this s))) (Z_init K)) (resized K s)"
  by (cases s) (auto simp add: project_def resized_def Let_def)

lemma this_body_update [simp]: "this (body_update K i Fi Ei Hi s) = this s"
  by (simp add: body_update_def)

lemma this_resized [simp]: "this (resized K s) = this s"
  by (simp add: resized_def)

lemma project_loop_this: "this (snd (project_loop K point i z s)) = this s"
proof (induction "length (cameras (this s)) - i" arbitrary: i z s)
  case 0
  then show ?case by (subst project_loop_unfold) simp
next
  case (Suc n)
  then have lt: "i < length (cameras (this s))" by simp
  show ?case
  proof (cases "camera_result K point s i")
    case (Inl e)
    then show ?thesis using lt by (subst project_loop_unfold) simp
  next
    case (Inr res)
    then obtain zi Fi Ei Hi where r: "camera_result K point s i = Inr (zi, Fi, Ei, Hi)"
      by (metis prod_cases4)
    let ?s = "body_update K i Fi Ei Hi s"
    have "n = length (cameras (this ?s)) - Suc i" using Suc.hyps(2) by simp
    from Suc.hyps(1)[OF this, of "z[i := zi]"]
    show ?thesis using lt r by (subst project_loop_unfold) simp
  qed
qed

text \<open>
  C8. A call of project leaves the object as it was: the sequence of cameras after the
  call, whether it returned or threw, is the sequence before it.
\<close>

theorem project_keeps_cameras: "this (snd (project K point s)) = this s"
  by (simp add: project_unfold project_loop_this)


subsection \<open>Block assignment and stacking\<close>

lemma block_assign_shape [simp]:
  "rows (block_assign r0 c0 h w B M) = rows M"
  "cols (block_assign r0 c0 h w B M) = cols M"
  by (simp_all add: block_assign_def)

lemma coeff_block_assign:
  "coeff (block_assign r0 c0 h w B M) r c =
     (if r0 \<le> r \<and> r < r0 + h \<and> c0 \<le> c \<and> c < c0 + w then Some (B (r - r0) (c - c0))
      else coeff M r c)"
  by (simp add: block_assign_def)

lemma block_assign_no_cols: "block_assign r0 c0 h 0 B M = M"
proof -
  have "(\<lambda>r c. if r0 \<le> r \<and> r < r0 + h \<and> c0 \<le> c \<and> c < c0 + 0
               then Some (B (r - r0) (c - c0)) else coeff M r c) = coeff M"
    by (intro ext) auto
  then show ?thesis by (simp add: block_assign_def)
qed

lemma stacked_empty [simp]: "n \<le> i \<Longrightarrow> stacked zd w blk i n M = M"
  by (simp add: stacked_def)

lemma stacked_first:
  "i < n \<Longrightarrow>
     stacked zd w blk i n =
       (\<lambda>M. stacked zd w blk (Suc i) n (block_assign (zd * i) 0 zd w (blk i) M))"
  by (simp add: stacked_def upt_conv_Cons fun_eq_iff)

lemma stacked_last:
  "i \<le> n \<Longrightarrow>
     stacked zd w blk i (Suc n) M = block_assign (zd * n) 0 zd w (blk n) (stacked zd w blk i n M)"
  by (simp add: stacked_def)

lemma stacked_shape [simp]:
  "rows (stacked zd w blk i n M) = rows M"
  "cols (stacked zd w blk i n M) = cols M"
proof -
  have "rows (stacked zd w blk i n M) = rows M \<and> cols (stacked zd w blk i n M) = cols M"
  proof (induction n)
    case 0
    show ?case by simp
  next
    case (Suc n)
    then show ?case by (cases "i \<le> n") (simp_all add: stacked_last not_le)
  qed
  then show "rows (stacked zd w blk i n M) = rows M" "cols (stacked zd w blk i n M) = cols M"
    by simp_all
qed

lemma stacked_no_cols: "stacked zd 0 blk i n M = M"
proof (induction n)
  case 0
  show ?case by simp
next
  case (Suc n)
  then show ?case
    by (cases "i \<le> n") (simp_all add: stacked_last not_le block_assign_no_cols)
qed

lemma coeff_stacked:
  "i \<le> j \<Longrightarrow> j < n \<Longrightarrow> r < zd \<Longrightarrow> c < w \<Longrightarrow>
     coeff (stacked zd w blk i n M) (zd * j + r) c = Some (blk j r c)"
proof (induction n)
  case 0
  then show ?case by simp
next
  case (Suc n)
  show ?case
  proof (cases "j = n")
    case True
    with Suc.prems show ?thesis by (simp add: stacked_last coeff_block_assign)
  next
    case False
    with Suc.prems have jn: "j < n" by simp
    then have "Suc j \<le> n" by simp
    then have "zd * Suc j \<le> zd * n" by (rule mult_le_mono2)
    with Suc.prems have "zd * j + r < zd * n" by simp
    with Suc.prems jn Suc.IH show ?thesis by (simp add: stacked_last coeff_block_assign)
  qed
qed

subsection \<open>The loop\<close>

lemma camera_result_body_update [simp]:
  "camera_result K point (body_update K i Fi Ei Hi s) j = camera_result K point s j"
  by (simp add: camera_result_def body_update_def)

lemma camera_result_resized [simp]:
  "camera_result K point (resized K s) j = camera_result K point s j"
  by (simp add: camera_result_def resized_def)

lemma block_body_update [simp]:
  "Fblock K point (body_update K i Fi Ei Hi s) = Fblock K point s"
  "Eblock K point (body_update K i Fi Ei Hi s) = Eblock K point s"
  "Hblock K point (body_update K i Fi Ei Hi s) = Hblock K point s"
  by (simp_all add: Fblock_def Eblock_def Hblock_def fun_eq_iff)

lemma block_resized [simp]:
  "Fblock K point (resized K s) = Fblock K point s"
  "Eblock K point (resized K s) = Eblock K point s"
  "Hblock K point (resized K s) = Hblock K point s"
  by (simp_all add: Fblock_def Eblock_def Hblock_def fun_eq_iff)

lemma F_body_update:
  "F (body_update K i Fi Ei Hi s) = map_option (block_assign (ZDim K * i) 0 (ZDim K) 6 Fi) (F s)"
  and E_body_update:
  "E (body_update K i Fi Ei Hi s) = map_option (block_assign (ZDim K * i) 0 (ZDim K) 3 Ei) (E s)"
  and H_body_update:
  "H (body_update K i Fi Ei Hi s) =
     map_option (block_assign (ZDim K * i) 0 (ZDim K) (Dim K - 6) Hi) (H s)"
  by (simp_all add: body_update_def)

lemma no_camera_fails_nth:
  "no_camera_fails K point s \<Longrightarrow> j < length (cameras (this s)) \<Longrightarrow>
     \<exists>res. camera_result K point s j = Inr res"
  by (cases "camera_result K point s j")
     (auto simp: no_camera_fails_def camera_result_def list_all_length)

lemma project_loop_succeeds:
  "\<forall>j. i \<le> j \<and> j < length (cameras (this s)) \<longrightarrow> (\<exists>res. camera_result K point s j = Inr res)
   \<Longrightarrow> length z = length (cameras (this s))
   \<Longrightarrow> fst (project_loop K point i z s) =
         Inr (take i z @ map (\<lambda>j. fst (projr (camera_result K point s j)))
                            [i ..< length (cameras (this s))])"
proof (induction "length (cameras (this s)) - i" arbitrary: i z s)
  case 0
  then show ?case by (subst project_loop_unfold) simp
next
  case (Suc n)
  then have lt: "i < length (cameras (this s))" by simp
  with Suc.prems obtain zi Fi Ei Hi where r: "camera_result K point s i = Inr (zi, Fi, Ei, Hi)"
    by (metis le_refl prod_cases4)
  let ?s = "body_update K i Fi Ei Hi s"
  have "fst (project_loop K point (Suc i) (z[i := zi]) ?s) =
         Inr (take (Suc i) (z[i := zi]) @
              map (\<lambda>j. fst (projr (camera_result K point ?s j)))
                  [Suc i ..< length (cameras (this ?s))])"
    using Suc.hyps(2) Suc.prems by (intro Suc.hyps(1)) auto
  moreover have "take (Suc i) (z[i := zi]) = take i z @ [zi]"
    using lt Suc.prems(2) by (simp add: take_Suc_conv_app_nth)
  ultimately show ?case
    using lt r by (subst project_loop_unfold) (simp add: upt_conv_Cons)
qed

lemma project_loop_fails:
  "i \<le> k \<Longrightarrow> k < length (cameras (this s)) \<Longrightarrow> camera_result K point s k = Inl e \<Longrightarrow>
   \<forall>j. i \<le> j \<and> j < k \<longrightarrow> (\<exists>res. camera_result K point s j = Inr res) \<Longrightarrow>
   fst (project_loop K point i z s) = Inl e"
proof (induction "k - i" arbitrary: i z s)
  case 0
  then have "i = k" by simp
  with 0 show ?case by (subst project_loop_unfold) simp
next
  case (Suc n)
  then have lt: "i < k" by simp
  with Suc.prems obtain zi Fi Ei Hi where r: "camera_result K point s i = Inr (zi, Fi, Ei, Hi)"
    by (metis le_refl prod_cases4)
  let ?s = "body_update K i Fi Ei Hi s"
  have "fst (project_loop K point (Suc i) (z[i := zi]) ?s) = Inl e"
    using Suc.hyps(2) Suc.prems lt by (intro Suc.hyps(1)) auto
  then show ?case
    using lt Suc.prems(2) r by (subst project_loop_unfold) simp
qed

lemma same_shape_refl [simp]: "same_shape A A"
  by (simp add: same_shape_def split: option.splits)

lemma same_shape_block_assign:
  "same_shape (map_option (block_assign r0 c0 h w B) A) C = same_shape A C"
  by (cases A; cases C) (simp_all add: same_shape_def)

lemma project_loop_shape:
  "same_shape (F s) (F (snd (project_loop K point i z s))) \<and>
   same_shape (E s) (E (snd (project_loop K point i z s))) \<and>
   same_shape (H s) (H (snd (project_loop K point i z s)))"
proof (induction "length (cameras (this s)) - i" arbitrary: i z s)
  case 0
  then show ?case by (subst (1 2 3) project_loop_unfold) simp
next
  case (Suc n)
  then have lt: "i < length (cameras (this s))" by simp
  show ?case
  proof (cases "camera_result K point s i")
    case (Inl e)
    then show ?thesis using lt by (subst (1 2 3) project_loop_unfold) simp
  next
    case (Inr res)
    then obtain zi Fi Ei Hi where r: "camera_result K point s i = Inr (zi, Fi, Ei, Hi)"
      by (metis prod_cases4)
    let ?s = "body_update K i Fi Ei Hi s"
    have "n = length (cameras (this ?s)) - Suc i" using Suc.hyps(2) by simp
    from Suc.hyps(1)[OF this, of "z[i := zi]"]
    show ?thesis using lt r
      by (subst (1 2 3) project_loop_unfold)
         (simp add: F_body_update E_body_update H_body_update same_shape_block_assign)
  qed
qed

lemma project_loop_stacked:
  "\<forall>j. i \<le> j \<and> j < length (cameras (this s)) \<longrightarrow> (\<exists>res. camera_result K point s j = Inr res) \<Longrightarrow>
   F (snd (project_loop K point i z s)) =
     map_option (stacked (ZDim K) 6 (Fblock K point s) i (length (cameras (this s)))) (F s) \<and>
   E (snd (project_loop K point i z s)) =
     map_option (stacked (ZDim K) 3 (Eblock K point s) i (length (cameras (this s)))) (E s) \<and>
   H (snd (project_loop K point i z s)) =
     map_option (stacked (ZDim K) (Dim K - 6) (Hblock K point s) i (length (cameras (this s))))
       (H s)"
proof (induction "length (cameras (this s)) - i" arbitrary: i z s)
  case 0
  then show ?case
    by (subst (1 2 3) project_loop_unfold) (simp add: option.map_ident_strong)
next
  case (Suc n)
  then have lt: "i < length (cameras (this s))" by simp
  with Suc.prems obtain zi Fi Ei Hi where r: "camera_result K point s i = Inr (zi, Fi, Ei, Hi)"
    by (metis le_refl prod_cases4)
  let ?s = "body_update K i Fi Ei Hi s"
  have n: "n = length (cameras (this ?s)) - Suc i" using Suc.hyps(2) by simp
  have ok: "\<forall>j. Suc i \<le> j \<and> j < length (cameras (this ?s)) \<longrightarrow>
              (\<exists>res. camera_result K point ?s j = Inr res)"
    using Suc.prems by simp
  have blk: "Fblock K point s i = Fi" "Eblock K point s i = Ei" "Hblock K point s i = Hi"
    using r by (simp_all add: Fblock_def Eblock_def Hblock_def)
  from Suc.hyps(1)[OF n ok, of "z[i := zi]"]
  show ?case using lt r
    by (subst (1 2 3) project_loop_unfold)
       (simp add: F_body_update E_body_update H_body_update option.map_comp comp_def
          stacked_first[OF lt] blk)
qed


subsection \<open>The whole call\<close>

lemma F_resized: "F (resized K s) = map_option (resize (ZDim K * length (cameras (this s))) 6) (F s)"
  and E_resized: "E (resized K s) = map_option (resize (ZDim K * length (cameras (this s))) 3) (E s)"
  and H_resized: "H (resized K s) = (if 6 < Dim K
             then map_option (resize (ZDim K * length (cameras (this s))) (Dim K - 6)) (H s)
             else H s)"
  by (simp_all add: resized_def)

lemma resize_shape [simp]: "rows (resize r c M) = r" "cols (resize r c M) = c"
  by (simp_all add: resize_def)

lemma same_shape_resize:
  "same_shape (map_option (resize r c) A) B \<Longrightarrow> A \<noteq> None \<Longrightarrow>
     \<exists>M'. B = Some M' \<and> rows M' = r \<and> cols M' = c"
  by (cases A; cases B) (simp_all add: same_shape_def)

lemma project_shape:
  "same_shape (F (resized K s)) (F (snd (project K point s)))"
  "same_shape (E (resized K s)) (E (snd (project K point s)))"
  "same_shape (H (resized K s)) (H (snd (project K point s)))"
  using project_loop_shape[of "resized K s" K point 0] by (simp_all add: project_unfold)

lemma project_loop_H_fixed:
  "Dim K \<le> 6 \<Longrightarrow> H (snd (project_loop K point i z s)) = H s"
proof (induction "length (cameras (this s)) - i" arbitrary: i z s)
  case 0
  then show ?case by (subst project_loop_unfold) simp
next
  case (Suc n)
  then have lt: "i < length (cameras (this s))" by simp
  show ?case
  proof (cases "camera_result K point s i")
    case (Inl e)
    then show ?thesis using lt by (subst project_loop_unfold) simp
  next
    case (Inr res)
    then obtain zi Fi Ei Hi where r: "camera_result K point s i = Inr (zi, Fi, Ei, Hi)"
      by (metis prod_cases4)
    let ?s = "body_update K i Fi Ei Hi s"
    have "n = length (cameras (this ?s)) - Suc i" using Suc.hyps(2) by simp
    from Suc.hyps(1)[OF this Suc.prems, of "z[i := zi]"]
    show ?thesis using lt r Suc.prems
      by (subst project_loop_unfold)
         (simp add: H_body_update block_assign_no_cols option.map_ident_strong)
  qed
qed

lemma project_succeeds:
  assumes "no_camera_fails K point s"
  shows "fst (project K point s) =
           Inr (map (\<lambda>j. fst (projr (camera_result K point s j))) [0 ..< length (cameras (this s))])"
proof -
  have "\<forall>j. 0 \<le> j \<and> j < length (cameras (this (resized K s))) \<longrightarrow>
          (\<exists>res. camera_result K point (resized K s) j = Inr res)"
    using no_camera_fails_nth[OF assms] by simp
  from project_loop_succeeds[OF this, of "replicate (length (cameras (this s))) (Z_init K)"]
  show ?thesis by (simp add: project_unfold)
qed

lemma project_stacked:
  assumes "no_camera_fails K point s"
  shows "F (snd (project K point s)) =
           map_option (stacked (ZDim K) 6 (Fblock K point s) 0 (length (cameras (this s))))
             (F (resized K s))"
    and "E (snd (project K point s)) =
           map_option (stacked (ZDim K) 3 (Eblock K point s) 0 (length (cameras (this s))))
             (E (resized K s))"
    and "H (snd (project K point s)) =
           map_option (stacked (ZDim K) (Dim K - 6) (Hblock K point s) 0 (length (cameras (this s))))
             (H (resized K s))"
proof -
  have "\<forall>j. 0 \<le> j \<and> j < length (cameras (this (resized K s))) \<longrightarrow>
          (\<exists>res. camera_result K point (resized K s) j = Inr res)"
    using no_camera_fails_nth[OF assms] by simp
  from project_loop_stacked[OF this, of "replicate (length (cameras (this s))) (Z_init K)"]
  show "F (snd (project K point s)) =
           map_option (stacked (ZDim K) 6 (Fblock K point s) 0 (length (cameras (this s))))
             (F (resized K s))"
    and "E (snd (project K point s)) =
           map_option (stacked (ZDim K) 3 (Eblock K point s) 0 (length (cameras (this s))))
             (E (resized K s))"
    and "H (snd (project K point s)) =
           map_option (stacked (ZDim K) (Dim K - 6) (Hblock K point s) 0 (length (cameras (this s))))
             (H (resized K s))"
    by (simp_all add: project_unfold)
qed

lemma resized_requested:
  "F (resized K s) = None \<longleftrightarrow> F s = None"
  "E (resized K s) = None \<longleftrightarrow> E s = None"
  "H (resized K s) = None \<longleftrightarrow> H s = None"
  by (simp_all add: resized_def)

subsection \<open>The build with assertions\<close>

declare project_loop_checked.simps [simp del]

lemma block_ok_None [simp]: "block_ok r0 c0 h w None"
  by (simp add: block_ok_def)

lemma project_loop_checked_unfold:
  "project_loop_checked K point i z s =
     (if i < length (cameras (this s)) then
        (case camera_result K point s i of
           Inl e \<Rightarrow> (Thrown e, s)
         | Inr (zi, Fi, Ei, Hi) \<Rightarrow>
             if \<not> block_ok (ZDim K * i) 0 (ZDim K) 6 (F s) then (Aborted, s)
             else if \<not> block_ok (ZDim K * i) 0 (ZDim K) 3 (E s) then
               (Aborted, s\<lparr>F := F (body_update K i Fi Ei Hi s)\<rparr>)
             else if \<not> block_ok (ZDim K * i) 0 (ZDim K) (Dim K - 6) (H s) then
               (Aborted, s\<lparr>F := F (body_update K i Fi Ei Hi s), E := E (body_update K i Fi Ei Hi s)\<rparr>)
             else project_loop_checked K point (Suc i) (z[i := zi]) (body_update K i Fi Ei Hi s))
      else (Returned z, s))"
  by (subst project_loop_checked.simps)
     (simp add: camera_result_def body_update_def split: sum.splits)

lemma project_checked_unfold:
  "project_checked K point s =
     project_loop_checked K point 0 (replicate (length (cameras (this s))) (Z_init K)) (resized K s)"
  by (cases s) (auto simp add: project_checked_def resized_def Let_def)

lemma same_shape_block_assign_right:
  "same_shape A (map_option (block_assign r0 c0 h w B) C) = same_shape A C"
  by (cases A; cases C) (simp_all add: same_shape_def)

lemma project_loop_checked_frame:
  "same_shape (F s) (F (snd (project_loop_checked K point i z s))) \<and>
   same_shape (E s) (E (snd (project_loop_checked K point i z s))) \<and>
   same_shape (H s) (H (snd (project_loop_checked K point i z s))) \<and>
   (Dim K \<le> 6 \<longrightarrow> H (snd (project_loop_checked K point i z s)) = H s)"
proof (induction "length (cameras (this s)) - i" arbitrary: i z s)
  case 0
  then show ?case by (subst (1 2 3 4) project_loop_checked_unfold) simp
next
  case (Suc n)
  then have lt: "i < length (cameras (this s))" by simp
  show ?case
  proof (cases "camera_result K point s i")
    case (Inl e)
    then show ?thesis using lt by (subst (1 2 3 4) project_loop_checked_unfold) simp
  next
    case (Inr res)
    then obtain zi Fi Ei Hi where r: "camera_result K point s i = Inr (zi, Fi, Ei, Hi)"
      by (metis prod_cases4)
    let ?s = "body_update K i Fi Ei Hi s"
    have "n = length (cameras (this ?s)) - Suc i" using Suc.hyps(2) by simp
    from Suc.hyps(1)[OF this, of "z[i := zi]"]
    show ?thesis using lt r
      by (subst (1 2 3 4) project_loop_checked_unfold)
         (simp add: F_body_update E_body_update H_body_update same_shape_block_assign
            same_shape_block_assign_right block_assign_no_cols option.map_ident_strong)
  qed
qed

lemma block_ok_row_block:
  "block_ok 0 0 (zd * n) w A \<Longrightarrow> i < n \<Longrightarrow> block_ok (zd * i) 0 zd w A"
proof -
  assume a: "block_ok 0 0 (zd * n) w A" and "i < n"
  then have "Suc i \<le> n" by simp
  then have "zd * Suc i \<le> zd * n" by (rule mult_le_mono2)
  with a show ?thesis
    by (cases A) (simp_all add: block_ok_def block_in_range_def)
qed

lemma block_ok_block_assign [simp]:
  "block_ok r0 c0 h w (map_option (block_assign r1 c1 h1 w1 B) A) = block_ok r0 c0 h w A"
  by (cases A) (simp_all add: block_ok_def block_in_range_def)

lemma blocks_fit_body_update [simp]:
  "blocks_fit K (body_update K i Fi Ei Hi s) = blocks_fit K s"
  by (simp add: blocks_fit_def F_body_update E_body_update H_body_update)

lemma project_loop_checked_agrees:
  "blocks_fit K s \<Longrightarrow>
     project_loop_checked K point i z s =
       (outcome_of (fst (project_loop K point i z s)), snd (project_loop K point i z s))"
proof (induction "length (cameras (this s)) - i" arbitrary: i z s)
  case 0
  then show ?case
    by (subst project_loop_checked_unfold, subst (1 2) project_loop_unfold)
       (simp add: outcome_of_def)
next
  case (Suc n)
  then have lt: "i < length (cameras (this s))" by simp
  show ?case
  proof (cases "camera_result K point s i")
    case (Inl e)
    then show ?thesis using lt
      by (subst project_loop_checked_unfold, subst (1 2) project_loop_unfold)
         (simp add: outcome_of_def)
  next
    case (Inr res)
    then obtain zi Fi Ei Hi where r: "camera_result K point s i = Inr (zi, Fi, Ei, Hi)"
      by (metis prod_cases4)
    let ?s = "body_update K i Fi Ei Hi s"
    have n: "n = length (cameras (this ?s)) - Suc i" using Suc.hyps(2) by simp
    have fit: "blocks_fit K ?s" using Suc.prems by simp
    have ok: "block_ok (ZDim K * i) 0 (ZDim K) 6 (F s)"
         "block_ok (ZDim K * i) 0 (ZDim K) 3 (E s)"
         "block_ok (ZDim K * i) 0 (ZDim K) (Dim K - 6) (H s)"
      using Suc.prems lt by (auto simp add: blocks_fit_def intro: block_ok_row_block)
    from Suc.hyps(1)[OF n fit, of "z[i := zi]"]
    show ?thesis using lt r ok
      by (subst project_loop_checked_unfold, subst (1 2) project_loop_unfold) simp
  qed
qed

lemma blocks_fit_resized:
  "6 < Dim K \<or> block_ok 0 0 (ZDim K * length (cameras (this s))) 0 (H s) \<Longrightarrow>
     blocks_fit K (resized K s)"
  by (cases "F s"; cases "E s"; cases "H s")
     (auto simp add: blocks_fit_def resized_def block_ok_def block_in_range_def resize_def)

text \<open>
  The two builds agree, in outcome and in the matrices, on every call but those with
  \<open>Dim \<le> 6\<close> and \<^verbatim>\<open>H\<close> given as a matrix of fewer than \<open>ZDim * N\<close> rows: everywhere else
  each block lies inside a matrix that has just been resized for it.
\<close>

lemma project_checked_agrees:
  "6 < Dim K \<or> block_ok 0 0 (ZDim K * length (cameras (this s))) 0 (H s) \<Longrightarrow>
     project_checked K point s = (outcome_of (fst (project K point s)), snd (project K point s))"
  by (simp add: project_checked_unfold project_unfold project_loop_checked_agrees
        blocks_fit_resized)

lemma project_checked_shape:
  "same_shape (F (resized K s)) (F (snd (project_checked K point s)))"
  "same_shape (E (resized K s)) (E (snd (project_checked K point s)))"
  "same_shape (H (resized K s)) (H (snd (project_checked K point s)))"
  using project_loop_checked_frame[of "resized K s" K point 0]
  by (simp_all add: project_checked_unfold)

lemma project_checked_H_fixed:
  "Dim K \<le> 6 \<Longrightarrow> H (snd (project_checked K point s)) = H s"
  using project_loop_checked_frame[of "resized K s" K point 0]
  by (simp add: project_checked_unfold H_resized)

lemma frame_after_shape:
  "same_shape (F (resized K s)) (F (frame_after asserts K point s))"
  "same_shape (E (resized K s)) (E (frame_after asserts K point s))"
  "same_shape (H (resized K s)) (H (frame_after asserts K point s))"
  by (simp_all add: frame_after_def project_checked_shape project_shape)

lemma frame_after_H_fixed:
  "Dim K \<le> 6 \<Longrightarrow> H (frame_after asserts K point s) = H s"
  by (simp add: frame_after_def project_checked_H_fixed project_unfold project_loop_H_fixed H_resized)

subsection \<open>The claims on project\<close>

text \<open>
  C4. When no camera fails on the point, project returns a sequence of measurements of
  length \<open>N\<close>, the number of cameras of the set (\<open>N \<ge> 0\<close>).
\<close>

theorem project_measurements_length:
  "no_camera_fails K point s \<Longrightarrow>
     \<exists>z. fst (project K point s) = Inr z \<and> length z = length (cameras (this s))"
  by (simp add: project_succeeds)

theorem project_measurements_length_witness:
  "no_camera_fails line_camera 5 all_of_two \<and>
   (\<exists>z. fst (project line_camera 5 all_of_two) = Inr z \<and> length z = 2)"
proof -
  have h: "no_camera_fails line_camera 5 all_of_two"
    by (simp add: no_camera_fails_def)
  from project_measurements_length[OF h] h show ?thesis by (simp add: numeral_2_eq_2)
qed

text \<open>
  C3. After project on a set of \<open>N\<close> cameras: a requested \<open>F\<close> has shape
  \<open>(ZDim * N) \<times> 6\<close>, a requested \<open>E\<close> has shape \<open>(ZDim * N) \<times> 3\<close>, a requested \<open>H\<close> has
  shape \<open>(ZDim * N) \<times> (Dim - 6)\<close> when \<open>Dim > 6\<close>; when \<open>Dim = 6\<close> no \<open>H\<close> is produced: the
  caller's matrix is left as it was. This holds in the build without and in the build
  with Eigen's assertions, and for every point, so for the non-failing ones. (In the
  build with assertions a call with \<open>Dim = 6\<close> and \<open>H\<close> requested is aborted when the
  caller's matrix has fewer than \<open>ZDim * N\<close> rows: it produces nothing.)
\<close>

theorem project_output_shapes:
  "(F s \<noteq> None \<longrightarrow>
      (\<exists>M'. F (frame_after asserts K point s) = Some M' \<and>
            rows M' = ZDim K * length (cameras (this s)) \<and> cols M' = 6)) \<and>
   (E s \<noteq> None \<longrightarrow>
      (\<exists>M'. E (frame_after asserts K point s) = Some M' \<and>
            rows M' = ZDim K * length (cameras (this s)) \<and> cols M' = 3)) \<and>
   (H s \<noteq> None \<and> 6 < Dim K \<longrightarrow>
      (\<exists>M'. H (frame_after asserts K point s) = Some M' \<and>
            rows M' = ZDim K * length (cameras (this s)) \<and> cols M' = Dim K - 6)) \<and>
   (Dim K = 6 \<longrightarrow> H (frame_after asserts K point s) = H s)"
proof (intro conjI impI)
  assume "F s \<noteq> None"
  then show "\<exists>M'. F (frame_after asserts K point s) = Some M' \<and>
            rows M' = ZDim K * length (cameras (this s)) \<and> cols M' = 6"
    using frame_after_shape(1)[of K s asserts point]
    by (intro same_shape_resize) (simp_all add: F_resized)
next
  assume "E s \<noteq> None"
  then show "\<exists>M'. E (frame_after asserts K point s) = Some M' \<and>
            rows M' = ZDim K * length (cameras (this s)) \<and> cols M' = 3"
    using frame_after_shape(2)[of K s asserts point]
    by (intro same_shape_resize) (simp_all add: E_resized)
next
  assume "H s \<noteq> None \<and> 6 < Dim K"
  then have "H s \<noteq> None" "6 < Dim K" by simp_all
  then show "\<exists>M'. H (frame_after asserts K point s) = Some M' \<and>
            rows M' = ZDim K * length (cameras (this s)) \<and> cols M' = Dim K - 6"
    using frame_after_shape(3)[of K s asserts point]
    by (intro same_shape_resize) (simp_all add: H_resized)
next
  assume "Dim K = 6"
  then show "H (frame_after asserts K point s) = H s"
    by (simp add: frame_after_H_fixed)
qed

theorem project_output_shapes_witness:
  "F all_of_two \<noteq> None \<and> E all_of_two \<noteq> None \<and> H all_of_two \<noteq> None \<and>
   6 < Dim line_camera \<and> Dim pose_camera = 6 \<and>
   (\<exists>M'. F (frame_after True line_camera 5 all_of_two) = Some M' \<and> rows M' = 4 \<and> cols M' = 6) \<and>
   (\<exists>M'. E (frame_after True line_camera 5 all_of_two) = Some M' \<and> rows M' = 4 \<and> cols M' = 3) \<and>
   (\<exists>M'. H (frame_after True line_camera 5 all_of_two) = Some M' \<and> rows M' = 4 \<and> cols M' = 1) \<and>
   (\<exists>M'. F (frame_after False line_camera 5 all_of_two) = Some M' \<and> rows M' = 4 \<and> cols M' = 6) \<and>
   (\<exists>M'. E (frame_after False line_camera 5 all_of_two) = Some M' \<and> rows M' = 4 \<and> cols M' = 3) \<and>
   (\<exists>M'. H (frame_after False line_camera 5 all_of_two) = Some M' \<and> rows M' = 4 \<and> cols M' = 1) \<and>
   H (frame_after False pose_camera 5 all_of_two) = Some empty_matrix \<and>
   H (frame_after True pose_camera 5 all_of_two) = Some empty_matrix \<and>
   fst (project_checked pose_camera 5 all_of_two) = Aborted"
proof -
  have "fst (project_checked pose_camera 5 all_of_two) = Aborted"
    by (simp add: project_checked_unfold project_loop_checked_unfold camera_result_def
          resized_def block_ok_def block_in_range_def resize_def empty_matrix_def
          pose_camera_def line_camera_def)
  then show ?thesis
    using project_output_shapes[of all_of_two True line_camera 5]
          project_output_shapes[of all_of_two False line_camera 5]
          project_output_shapes[of all_of_two False pose_camera 5]
          project_output_shapes[of all_of_two True pose_camera 5]
    by simp
qed

text \<open>
  C2. When no camera fails on the point, row-block \<open>i\<close> (the \<open>ZDim\<close> rows from row
  \<open>ZDim * i\<close>) of each requested matrix \<open>F\<close>, \<open>E\<close>, \<open>H\<close> is the block that camera \<open>i\<close>'s
  own projection of the same point computes, for every index \<open>i\<close> of the set.
\<close>

theorem project_row_blocks:
  assumes "no_camera_fails K point s"
    and "i < length (cameras (this s))"
    and "camera_result K point s i = Inr (zi, Fi, Ei, Hi)"
    and "r < ZDim K"
  shows "(F s \<noteq> None \<and> c < 6 \<longrightarrow>
            (\<exists>M'. F (snd (project K point s)) = Some M' \<and>
                  coeff M' (ZDim K * i + r) c = Some (Fi r c))) \<and>
         (E s \<noteq> None \<and> c < 3 \<longrightarrow>
            (\<exists>M'. E (snd (project K point s)) = Some M' \<and>
                  coeff M' (ZDim K * i + r) c = Some (Ei r c))) \<and>
         (H s \<noteq> None \<and> c < Dim K - 6 \<longrightarrow>
            (\<exists>M'. H (snd (project K point s)) = Some M' \<and>
                  coeff M' (ZDim K * i + r) c = Some (Hi r c)))"
proof -
  have blk: "Fblock K point s i = Fi" "Eblock K point s i = Ei" "Hblock K point s i = Hi"
    using assms(3) by (simp_all add: Fblock_def Eblock_def Hblock_def)
  have "F s \<noteq> None \<Longrightarrow> c < 6 \<Longrightarrow>
          \<exists>M'. F (snd (project K point s)) = Some M' \<and>
               coeff M' (ZDim K * i + r) c = Some (Fi r c)"
    using assms(2,4) resized_requested(1)[of K s]
    by (cases "F (resized K s)")
       (simp_all add: project_stacked(1)[OF assms(1)] coeff_stacked blk)
  moreover have "E s \<noteq> None \<Longrightarrow> c < 3 \<Longrightarrow>
          \<exists>M'. E (snd (project K point s)) = Some M' \<and>
               coeff M' (ZDim K * i + r) c = Some (Ei r c)"
    using assms(2,4) resized_requested(2)[of K s]
    by (cases "E (resized K s)")
       (simp_all add: project_stacked(2)[OF assms(1)] coeff_stacked blk)
  moreover have "H s \<noteq> None \<Longrightarrow> c < Dim K - 6 \<Longrightarrow>
          \<exists>M'. H (snd (project K point s)) = Some M' \<and>
               coeff M' (ZDim K * i + r) c = Some (Hi r c)"
    using assms(2,4) resized_requested(3)[of K s]
    by (cases "H (resized K s)")
       (simp_all add: project_stacked(3)[OF assms(1)] coeff_stacked blk)
  ultimately show ?thesis by blast
qed

theorem project_row_blocks_witness:
  "no_camera_fails line_camera 5 all_of_two \<and>
   1 < length (cameras (this all_of_two)) \<and>
   camera_result line_camera 5 all_of_two 1 =
     Inr (3, (\<lambda>r k. 200 + 10 * int r + int k), (\<lambda>r k. 500 + 10 * int r + int k),
          (\<lambda>r k. 3 + int r)) \<and>
   1 < ZDim line_camera \<and>
   F all_of_two \<noteq> None \<and> E all_of_two \<noteq> None \<and> H all_of_two \<noteq> None \<and>
   (0::nat) < 6 \<and> (0::nat) < 3 \<and> 0 < Dim line_camera - 6 \<and>
   (\<exists>M'. F (snd (project line_camera 5 all_of_two)) = Some M' \<and> coeff M' 3 0 = Some 210) \<and>
   (\<exists>M'. E (snd (project line_camera 5 all_of_two)) = Some M' \<and> coeff M' 3 0 = Some 510) \<and>
   (\<exists>M'. H (snd (project line_camera 5 all_of_two)) = Some M' \<and> coeff M' 3 0 = Some 4)"
proof -
  have h1: "no_camera_fails line_camera 5 all_of_two"
    by (simp add: no_camera_fails_def)
  have h2: "1 < length (cameras (this all_of_two))" by simp
  have h3: "camera_result line_camera 5 all_of_two 1 =
     Inr (3, (\<lambda>r k. 200 + 10 * int r + int k), (\<lambda>r k. 500 + 10 * int r + int k),
          (\<lambda>r k. 3 + int r))"
    by (simp add: camera_result_def)
  have h4: "1 < ZDim line_camera" by simp
  from project_row_blocks[OF h1 h2 h3 h4, of 0] h1 h2 h3 h4
  show ?thesis by simp
qed

text \<open>
  C5, as amended. For a point on which no camera fails, and cameras whose own
  measurement is the same with no derivative pointer as with all three, project returns
  the same measurements with all three derivatives requested as with none.
\<close>

theorem project_measurements_independent:
  assumes "no_camera_fails K point (request_none S)"
    and "no_camera_fails K point (request_all S MF ME MH)"
    and "list_all (\<lambda>c. fst (projr (camera_project K c point False False False)) =
                       fst (projr (camera_project K c point True True True))) (cameras S)"
  shows "\<exists>z. fst (project K point (request_none S)) = Inr z \<and>
             fst (project K point (request_all S MF ME MH)) = Inr z"
proof -
  have "map (\<lambda>j. fst (projr (camera_result K point (request_none S) j))) [0 ..< length (cameras S)] =
        map (\<lambda>j. fst (projr (camera_result K point (request_all S MF ME MH) j))) [0 ..< length (cameras S)]"
    using assms(3) by (simp add: camera_result_def list_all_length)
  then show ?thesis
    using project_succeeds[OF assms(1)] project_succeeds[OF assms(2)] by simp
qed

theorem project_measurements_independent_witness:
  "no_camera_fails line_camera 5 (request_none two_cameras) \<and>
   no_camera_fails line_camera 5 (request_all two_cameras empty_matrix empty_matrix empty_matrix) \<and>
   list_all (\<lambda>c. fst (projr (camera_project line_camera c 5 False False False)) =
                       fst (projr (camera_project line_camera c 5 True True True))) (cameras two_cameras) \<and>
   (\<exists>z. fst (project line_camera 5 (request_none two_cameras)) = Inr z \<and>
        fst (project line_camera 5 (request_all two_cameras empty_matrix empty_matrix empty_matrix)) = Inr z)"
proof -
  have h1: "no_camera_fails line_camera 5 (request_none two_cameras)"
    by (simp add: no_camera_fails_def)
  have h2: "no_camera_fails line_camera 5 (request_all two_cameras empty_matrix empty_matrix empty_matrix)"
    by (simp add: no_camera_fails_def)
  have h3: "list_all (\<lambda>c. fst (projr (camera_project line_camera c 5 False False False)) =
                       fst (projr (camera_project line_camera c 5 True True True))) (cameras two_cameras)"
    by simp
  from project_measurements_independent[OF h1 h2 h3] h1 h2 h3 show ?thesis by blast
qed

text \<open>
  C5 as stated, for every camera, fails: project hands each camera the pointers it was
  given, so a camera whose measurement depends on them gives different measurements in
  the two calls, and no camera fails.
\<close>

theorem project_measurements_flag_camera:
  "no_camera_fails flag_camera 5 (request_none two_cameras) \<and>
   no_camera_fails flag_camera 5
     (request_all two_cameras empty_matrix empty_matrix empty_matrix) \<and>
   fst (project flag_camera 5 (request_none two_cameras)) = Inr [0, 0] \<and>
   fst (project flag_camera 5
     (request_all two_cameras empty_matrix empty_matrix empty_matrix)) = Inr [7, 7] \<and>
   fst (project flag_camera 5 (request_none two_cameras)) \<noteq>
   fst (project flag_camera 5
     (request_all two_cameras empty_matrix empty_matrix empty_matrix))"
proof -
  have h1: "no_camera_fails flag_camera 5 (request_none two_cameras)"
    by (simp add: no_camera_fails_def flag_camera_def)
  have h2: "no_camera_fails flag_camera 5
     (request_all two_cameras empty_matrix empty_matrix empty_matrix)"
    by (simp add: no_camera_fails_def flag_camera_def)
  have u: "[0 ..< length (cameras two_cameras)] = [0, 1]"
    by (simp add: upt_conv_Cons)
  have r1: "fst (project flag_camera 5 (request_none two_cameras)) = Inr [0, 0]"
    unfolding project_succeeds[OF h1] by (simp add: u camera_result_def flag_camera_def)
  have r2: "fst (project flag_camera 5
     (request_all two_cameras empty_matrix empty_matrix empty_matrix)) = Inr [7, 7]"
    unfolding project_succeeds[OF h2] by (simp add: u camera_result_def flag_camera_def)
  from h1 h2 r1 r2 show ?thesis by simp
qed

text \<open>
  C6. If a camera fails on the point, project fails with the exception thrown by the
  first such camera, as that camera threw it: nothing is caught, added or replaced, and
  no measurement is returned.
\<close>

theorem project_propagates_exception:
  assumes "\<not> no_camera_fails K point s"
  shows "\<exists>c e. first_failure K point s = Some c \<and>
               camera_project K c point (F s \<noteq> None) (E s \<noteq> None) (H s \<noteq> None) = Inl e \<and>
               fst (project K point s) = Inl e"
proof -
  let ?P = "\<lambda>c. isl (camera_project K c point (F s \<noteq> None) (E s \<noteq> None) (H s \<noteq> None))"
  from assms have "\<exists>c\<in>set (cameras (this s)). ?P c"
    by (simp add: no_camera_fails_def list_all_iff)
  then obtain c where c: "find ?P (cameras (this s)) = Some c"
    by (cases "find ?P (cameras (this s))") (auto simp: find_None_iff)
  then obtain k where k: "k < length (cameras (this s))" "?P (cameras (this s) ! k)"
      "c = cameras (this s) ! k" "\<forall>j<k. \<not> ?P (cameras (this s) ! j)"
    by (auto simp: find_Some_iff)
  from k(2,3) obtain e where e: "camera_project K c point (F s \<noteq> None) (E s \<noteq> None) (H s \<noteq> None) = Inl e"
    by (auto simp: isl_def)
  have "camera_result K point s k = Inl e"
    using e k(3) by (simp add: camera_result_def)
  then have 1: "camera_result K point (resized K s) k = Inl e"
    by simp
  have 2: "\<forall>j. 0 \<le> j \<and> j < k \<longrightarrow> (\<exists>res. camera_result K point (resized K s) j = Inr res)"
  proof (intro allI impI)
    fix j assume "0 \<le> j \<and> j < k"
    with k(4) have "\<not> isl (camera_result K point s j)" by (simp add: camera_result_def)
    then have "\<exists>res. camera_result K point s j = Inr res"
      by (cases "camera_result K point s j") (simp_all del: split_paired_Ex)
    then show "\<exists>res. camera_result K point (resized K s) j = Inr res"
      unfolding camera_result_resized .
  qed
  have "fst (project_loop K point 0 z0 (resized K s)) = Inl e" for z0
    by (rule project_loop_fails[OF _ _ 1 2]) (use k(1) in simp_all)
  then have "fst (project K point s) = Inl e"
    by (simp add: project_unfold)
  with c e show ?thesis by (auto simp: first_failure_def)
qed

theorem project_propagates_exception_witness:
  "\<not> no_camera_fails line_camera 5 (request_none three_cameras) \<and>
   first_failure line_camera 5 (request_none three_cameras) = Some 9 \<and>
   camera_project line_camera 9 5 False False False = Inl (CheiralityException 9) \<and>
   fst (project line_camera 5 (request_none three_cameras)) = Inl (CheiralityException 9)"
proof -
  have h: "\<not> no_camera_fails line_camera 5 (request_none three_cameras)"
    by (simp add: no_camera_fails_def)
  have f: "first_failure line_camera 5 (request_none three_cameras) = Some 9"
    by (simp add: first_failure_def)
  from project_propagates_exception[OF h] h f show ?thesis by auto
qed

end
